theory Spec2Isabelle
  imports Main "HOL-Library.Sublist"
begin

section \<open>ECMAScript array primitives used by the services\<close>

text \<open>
  \<^verbatim>\<open>Array.prototype.indexOf\<close>: the first index holding the element, \<open>-1\<close> when there is none.
\<close>

fun indexOf :: "'a list \<Rightarrow> 'a \<Rightarrow> int" where
  "indexOf [] x = - 1"
| "indexOf (y # ys) x =
     (if y = x then 0
      else (let i = indexOf ys x in if i = - 1 then - 1 else i + 1))"

text \<open>
  \<^verbatim>\<open>xs.splice(start, count)\<close> for an index inside the array, and \<^verbatim>\<open>xs.push(x)\<close>;
  both mutate in place, the model returns the new array.
\<close>

definition splice_js :: "'a list \<Rightarrow> nat \<Rightarrow> nat \<Rightarrow> 'a list" where
  "splice_js xs start cnt = take start xs @ drop (start + cnt) xs"

definition push :: "'a list \<Rightarrow> 'a \<Rightarrow> 'a list" where
  "push xs x = xs @ [x]"

section \<open>Selection Store (FileSelectionService)\<close>

text \<open>
  A \<^verbatim>\<open>vscode.Uri\<close> is represented by its \<^verbatim>\<open>fsPath\<close>. The extension context's
  \<^verbatim>\<open>workspaceState\<close> is a keyed store; \<^verbatim>\<open>get(key, default)\<close> returns the default for a key
  never written, \<^verbatim>\<open>update\<close> overwrites the key (the store is taken to be reliable).
\<close>

type_synonym fsPath = string

type_synonym workspaceState = "string \<Rightarrow> string list option"

definition ws_get :: "workspaceState \<Rightarrow> string \<Rightarrow> string list \<Rightarrow> string list" where
  "ws_get ws key dflt = (case ws key of None \<Rightarrow> dflt | Some v \<Rightarrow> v)"

definition ws_update :: "workspaceState \<Rightarrow> string \<Rightarrow> string list \<Rightarrow> workspaceState" where
  "ws_update ws key v = ws(key \<mapsto> v)"

definition selectionKey :: "fsPath \<Rightarrow> string" where
  "selectionKey repoPath = ''selected-files:'' @ repoPath"

definition getSelectedFiles :: "workspaceState \<Rightarrow> fsPath \<Rightarrow> fsPath list" where
  "getSelectedFiles ws repoUri = ws_get ws (selectionKey repoUri) []"

definition toggleFileSelection :: "workspaceState \<Rightarrow> fsPath \<Rightarrow> fsPath \<Rightarrow> workspaceState" where
  "toggleFileSelection ws fileUri repoUri =
     (let repoPath = repoUri;
          selectedPaths = ws_get ws (selectionKey repoPath) [];
          filePath = fileUri;
          index = indexOf selectedPaths filePath;
          selectedPaths' =
            (if index > - 1 then splice_js selectedPaths (nat index) 1
             else push selectedPaths filePath)
      in ws_update ws (selectionKey repoPath) selectedPaths')"

definition setFileSelection :: "workspaceState \<Rightarrow> fsPath \<Rightarrow> fsPath \<Rightarrow> bool \<Rightarrow> workspaceState" where
  "setFileSelection ws fileUri repoUri isSelected =
     (let repoPath = repoUri;
          selectedPaths = ws_get ws (selectionKey repoPath) [];
          filePath = fileUri;
          index = indexOf selectedPaths filePath;
          selectedPaths' =
            (if isSelected \<and> index = - 1 then push selectedPaths filePath
             else if \<not> isSelected \<and> index > - 1 then splice_js selectedPaths (nat index) 1
             else selectedPaths)
      in ws_update ws (selectionKey repoPath) selectedPaths')"

definition clearSelection :: "workspaceState \<Rightarrow> fsPath \<Rightarrow> workspaceState" where
  "clearSelection ws repoUri = ws_update ws (selectionKey repoUri) []"

text \<open>
  The key \<^verbatim>\<open>selected-files:\<close> of a repository is written by these three operations only,
  and the store of a workspace starts without any key. The stores the service can be in
  are therefore the ones these operations produce from the empty store.
\<close>

inductive reachable :: "workspaceState \<Rightarrow> bool" where
  reachable_initial: "reachable (\<lambda>key. None)"
| reachable_toggle: "reachable ws \<Longrightarrow> reachable (toggleFileSelection ws fileUri repoUri)"
| reachable_set: "reachable ws \<Longrightarrow> reachable (setFileSelection ws fileUri repoUri isSelected)"
| reachable_clear: "reachable ws \<Longrightarrow> reachable (clearSelection ws repoUri)"

section \<open>ECMAScript string primitives\<close>

text \<open>
  A string is a list of characters, each standing for one UTF-16 code unit in the range
  0 to 255; \<^verbatim>\<open>length\<close> counts them as \<^verbatim>\<open>String.prototype.length\<close> does.
  \<^verbatim>\<open>s.includes(k)\<close> holds when \<open>k\<close> occurs in \<open>s\<close> as a contiguous run.
\<close>

definition includes_str :: "string \<Rightarrow> string \<Rightarrow> bool" where
  "includes_str s k = sublist k s"

text \<open>
  \<^verbatim>\<open>toLowerCase\<close> on this range: A to Z and the capital letters 0xC0 to 0xDE
  (the multiplication sign 0xD7 apart) move up by 32, every other unit stays.
\<close>

definition toLowerCase_char :: "char \<Rightarrow> char" where
  "toLowerCase_char c =
     (let n = (of_char c :: nat)
      in if (65 \<le> n \<and> n \<le> 90) \<or> (192 \<le> n \<and> n \<le> 222 \<and> n \<noteq> 215)
         then char_of (n + 32) else c)"

definition toLowerCase :: "string \<Rightarrow> string" where
  "toLowerCase s = map toLowerCase_char s"

text \<open>
  \<^verbatim>\<open>trim\<close> strips white space and line terminators from both ends: tab, line feed,
  vertical tab, form feed, carriage return, space and the no-break space.
\<close>

definition isWhiteSpace :: "char \<Rightarrow> bool" where
  "isWhiteSpace c = ((of_char c :: nat) \<in> {9, 10, 11, 12, 13, 32, 160})"

definition trim :: "string \<Rightarrow> string" where
  "trim s = rev (dropWhile isWhiteSpace (rev (dropWhile isWhiteSpace s)))"

text \<open>
  \<^verbatim>\<open>s.split(sep)\<close> for a separator of one character (the services split at line
  feeds only), \<^verbatim>\<open>xs.join(sep)\<close> and \<^verbatim>\<open>xs.slice(0, n)\<close>. Splitting the empty string
  gives one empty piece.
\<close>

fun split :: "char \<Rightarrow> string \<Rightarrow> string list" where
  "split sep [] = [Nil]"
| "split sep (c # cs) =
     (if c = sep then [] # split sep cs
      else (case split sep cs of
              [] \<Rightarrow> [c # Nil]
            | l # ls \<Rightarrow> (c # l) # ls))"

fun join :: "string \<Rightarrow> string list \<Rightarrow> string" where
  "join sep [] = []"
| "join sep [x] = x"
| "join sep (x # y # ys) = x @ sep @ join sep (y # ys)"

definition slice0 :: "'a list \<Rightarrow> nat \<Rightarrow> 'a list" where
  "slice0 xs n = take n xs"

section \<open>Values thrown by a rejected call\<close>

text \<open>
  A rejected promise or a \<^verbatim>\<open>throw\<close> carries either an \<^verbatim>\<open>Error\<close> with its message or
  some other value; the handlers read the message as
  \<^verbatim>\<open>error instanceof Error ? error.message : 'Unknown error'\<close>.
\<close>

datatype thrown = Error string | NonError

fun errorMessage :: "thrown \<Rightarrow> string" where
  "errorMessage (Error m) = m"
| "errorMessage NonError = ''Unknown error''"

section \<open>Repository state and the Change Enumerator\<close>

record Change =
  uri :: fsPath
  status :: "nat option"

record RepositoryState =
  indexChanges :: "Change list"
  workingTreeChanges :: "Change list"
  untrackedChanges :: "Change list"

text \<open>
  A repository handle as the services use it: its root and its state. The commit
  operation tests \<^verbatim>\<open>!repository.state\<close>, so the state may be absent.
\<close>

record Repository =
  rootUri :: fsPath
  state :: "RepositoryState option"

text \<open>
  \<^verbatim>\<open>[...new Set(xs)]\<close>: a \<^verbatim>\<open>Set\<close> keeps its members in insertion order and ignores
  the insertion of a member it already holds.
\<close>

definition set_add :: "'a list \<Rightarrow> 'a \<Rightarrow> 'a list" where
  "set_add members x = (if x \<in> set members then members else members @ [x])"

definition new_Set :: "'a list \<Rightarrow> 'a list" where
  "new_Set xs = foldl set_add [] xs"

text \<open>
  Reading \<^verbatim>\<open>repository.state.indexChanges\<close> of a handle without state throws a
  \<^verbatim>\<open>TypeError\<close>; the message is the one of the V8 engine.
\<close>

definition stateTypeError :: thrown where
  "stateTypeError = Error ''Cannot read properties of undefined (reading 'indexChanges')''"

definition getChangedFiles :: "Repository \<Rightarrow> thrown + fsPath list" where
  "getChangedFiles repository =
     (case state repository of
        None \<Rightarrow> Inl stateTypeError
      | Some st \<Rightarrow>
          (let changedFiles = indexChanges st @ workingTreeChanges st @ untrackedChanges st;
               uris = map uri changedFiles;
               uniqueFilePaths = new_Set uris
           in Inr uniqueFilePaths))"

text \<open>
  The enumeration as the specification words it, for comparison: first occurrence wins
  under the priority order untracked, then staged, then working tree.
\<close>

definition listChanges_spec :: "RepositoryState \<Rightarrow> fsPath list" where
  "listChanges_spec st =
     new_Set (map uri (untrackedChanges st @ indexChanges st @ workingTreeChanges st))"

section \<open>Diff Reader (GitDiffService)\<close>

text \<open>
  The simple-git instance of a repository answers \<^verbatim>\<open>git.diff(args)\<close> with the diff text
  or rejects; \<^verbatim>\<open>_simpleGitInstances\<close> maps repository roots to instances. The text of
  an opened document is \<open>None\<close> when \<^verbatim>\<open>openTextDocument\<close> rejects.
\<close>

type_synonym diffClient = "string list \<Rightarrow> thrown + string"

definition getGitDiff ::
  "(fsPath \<Rightarrow> diffClient option) \<Rightarrow> Repository \<Rightarrow> string \<Rightarrow> string \<Rightarrow> string" where
  "getGitDiff simpleGitInstances repository relativePath changeType =
     (case simpleGitInstances (rootUri repository) of
        None \<Rightarrow> changeType @ '': '' @ relativePath
      | Some git \<Rightarrow>
          (case git [''HEAD'', ''--'', relativePath] of
             Inl gitError \<Rightarrow> changeType @ '': '' @ relativePath
           | Inr gitDiff \<Rightarrow>
               (let diff0 = (if gitDiff = [] then changeType @ '': '' @ relativePath else gitDiff)
                in if length diff0 > 2000
                   then (let lines = split CHR ''\<newline>'' diff0
                         in join ''\<newline>'' (slice0 lines 50)
                              @ ''\<newline>... (diff truncated for AI analysis)'')
                   else diff0)))"

definition getNewFileDiff :: "string option \<Rightarrow> string \<Rightarrow> string" where
  "getNewFileDiff document relativePath =
     (case document of
        None \<Rightarrow> ''New file: '' @ relativePath
      | Some content \<Rightarrow>
          (let lines = split CHR ''\<newline>'' content
           in ''+++ '' @ relativePath @ ''\<newline>''
                @ join ''\<newline>'' (slice0 (map (\<lambda>line. ''+'' @ line) lines) 50)
                @ (if length lines > 50 then ''\<newline>... (truncated)'' else [])))"

definition getFileDiff ::
  "(fsPath \<Rightarrow> diffClient option) \<Rightarrow> string option \<Rightarrow> Repository \<Rightarrow> string \<Rightarrow> string \<Rightarrow> string" where
  "getFileDiff simpleGitInstances document repository relativePath changeType =
     (if changeType = ''A'' then getNewFileDiff document relativePath
      else getGitDiff simpleGitInstances repository relativePath changeType)"

section \<open>Validation Checker (GitValidationService)\<close>

text \<open>
  What \<^verbatim>\<open>validateCommitSetup\<close> inspects of the value it is handed: whether it is there at
  all, its root, whether \<^verbatim>\<open>add\<close> and \<^verbatim>\<open>commit\<close> are functions, and its state.
\<close>

record RepositoryShape =
  shape_rootUri :: "fsPath option"
  add_is_function :: bool
  commit_is_function :: bool
  shape_state :: "RepositoryState option"

record ValidationResult =
  isValid :: bool
  issues :: "string list"

definition validateCommitSetup ::
  "RepositoryShape option \<Rightarrow> fsPath list \<Rightarrow> fsPath list \<Rightarrow> ValidationResult" where
  "validateCommitSetup repository selectedFiles changedFiles =
     (case repository of
        None \<Rightarrow> \<lparr>isValid = False, issues = push [] ''No repository provided''\<rparr>
      | Some repo \<Rightarrow>
          (case shape_rootUri repo of
             None \<Rightarrow> \<lparr>isValid = False, issues = push [] ''Repository has no root URI''\<rparr>
           | Some root \<Rightarrow>
               (let issues1 = (if \<not> add_is_function repo
                               then push [] ''Repository.add method not available'' else []);
                    issues2 = (if \<not> commit_is_function repo
                               then push issues1 ''Repository.commit method not available''
                               else issues1);
                    issues3 = (if length selectedFiles = 0
                               then push issues2 ''No files selected for commit'' else issues2);
                    validSelectedFiles =
                      filter (\<lambda>selected. list_ex (\<lambda>changed. changed = selected) changedFiles)
                        selectedFiles;
                    issues4 = (if length validSelectedFiles = 0
                               then push issues3 ''Selected files have no changes'' else issues3);
                    issues5 = (if shape_state repo = None
                               then push issues4 ''Repository state is not available''
                               else issues4)
                in \<lparr>isValid = (length issues5 = 0), issues = issues5\<rparr>)))"

section \<open>Message Heuristic Pipeline (CommitMessageGenerator)\<close>

record FileChangeAnalysis =
  fileName :: string
  changeType :: string
  diff :: string
  summary :: string

definition createDetailedCommitPrompt :: "FileChangeAnalysis list \<Rightarrow> string" where
  \<open>createDetailedCommitPrompt diffsAndContext =
     (let filesSummary = join ''\<newline>'' (map (\<lambda>item. ''- '' @ summary item) diffsAndContext);
          detailedChanges =
            join ''\<newline>\<newline>---\<newline>\<newline>''
              (map (\<lambda>item. ''File: '' @ fileName item @ ''\<newline>Change Type: '' @ changeType item
                            @ ''\<newline>Diff:\<newline>'' @ diff item)
                 diffsAndContext)
      in ''Generate a concise, professional Git commit message following conventional commit format.\<newline>\<newline>Files changed:\<newline>''
           @ filesSummary
           @ ''\<newline>\<newline>Detailed changes:\<newline>''
           @ detailedChanges
           @ ''\<newline>\<newline>Please generate a commit message that:\<newline>1. Uses conventional commit format (feat:, fix:, docs:, style:, refactor:, test:, chore:)\<newline>2. Is concise but descriptive (50-72 characters for the title)\<newline>3. Captures the main purpose of these changes\<newline>4. Uses present tense (e.g., "add feature" not "added feature")\<newline>\<newline>Return only the commit message, no additional text.'')\<close>

text \<open>
  The keyword tables are object literals read with \<^verbatim>\<open>Object.entries\<close>, which yields
  the entries in the order they are written; the loop returns at the first entry one of
  whose keywords the lower-cased prompt includes.
\<close>

fun firstMatch :: "(string \<times> string list) list \<Rightarrow> string \<Rightarrow> string option" where
  "firstMatch [] lowerPrompt = None"
| "firstMatch ((name, keywords) # entries) lowerPrompt =
     (if list_ex (\<lambda>keyword. includes_str lowerPrompt keyword) keywords then Some name
      else firstMatch entries lowerPrompt)"

definition typeMap :: "(string \<times> string list) list" where
  "typeMap =
     [(''fix'', [''fix'', ''bug'', ''error'']),
      (''test'', [''test'', ''spec'']),
      (''docs'', [''doc'', ''readme'', ''.md'']),
      (''refactor'', [''refactor'', ''restructure'']),
      (''style'', [''style'', ''format'']),
      (''chore'', [''delete'', ''remove''])]"

definition determineCommitType :: "string \<Rightarrow> string" where
  "determineCommitType prompt =
     (let lowerPrompt = toLowerCase prompt
      in case firstMatch typeMap lowerPrompt of Some type \<Rightarrow> type | None \<Rightarrow> ''feat'')"

definition scopeMap :: "(string \<times> string list) list" where
  "scopeMap =
     [(''deps'', [''package.json'']),
      (''test'', [''test'', ''spec'']),
      (''docs'', [''doc'', ''readme'']),
      (''config'', [''config'', ''.json'', ''.yml'']),
      (''ui'', [''ui'', ''component'']),
      (''api'', [''api'', ''service''])]"

definition determineScope :: "string \<Rightarrow> string" where
  "determineScope prompt =
     (let lowerPrompt = toLowerCase prompt
      in case firstMatch scopeMap lowerPrompt of Some scope \<Rightarrow> scope | None \<Rightarrow> [])"

definition getDescriptionMap :: "(string \<times> (string \<times> string) list) list" where
  "getDescriptionMap =
     [(''fix'', [(''bug'', ''resolve critical bug''), (''error'', ''handle error cases'')]),
      (''feat'', [(''add'', ''add new feature''), (''implement'', ''implement functionality'')])]"

definition getDefaultDescription :: "string \<Rightarrow> string" where
  "getDefaultDescription commitType =
     (let defaults =
            [(''feat'', ''add new functionality''),
             (''fix'', ''resolve issues''),
             (''docs'', ''update documentation''),
             (''style'', ''format code''),
             (''refactor'', ''improve structure''),
             (''test'', ''add tests''),
             (''chore'', ''update tasks'')]
      in case map_of defaults commitType of Some d \<Rightarrow> d | None \<Rightarrow> ''update codebase'')"

fun firstDescription :: "(string \<times> string) list \<Rightarrow> string \<Rightarrow> string option" where
  "firstDescription [] lowerPrompt = None"
| "firstDescription ((keyword, description) # entries) lowerPrompt =
     (if includes_str lowerPrompt keyword then Some description
      else firstDescription entries lowerPrompt)"

definition generateDescription :: "string \<Rightarrow> string \<Rightarrow> string" where
  "generateDescription prompt commitType =
     (let lowerPrompt = toLowerCase prompt;
          descriptions = getDescriptionMap
      in case map_of descriptions commitType of
           None \<Rightarrow> getDefaultDescription commitType
         | Some typeDescriptions \<Rightarrow>
             (case firstDescription typeDescriptions lowerPrompt of
                Some description \<Rightarrow> description
              | None \<Rightarrow> getDefaultDescription commitType))"

text \<open>
  The result is the resolved value of the promise: \<open>None\<close> stands for \<^verbatim>\<open>undefined\<close>,
  which the handler of the \<^verbatim>\<open>try\<close> block would give; nothing in the block throws.
\<close>

definition generateIntelligentCommitMessage :: "string \<Rightarrow> string option" where
  "generateIntelligentCommitMessage prompt =
     (let commitType = determineCommitType prompt;
          scope = determineScope prompt;
          description = generateDescription prompt commitType;
          scopePart = (if scope \<noteq> [] then ''('' @ scope @ '')'' else [])
      in Some (commitType @ scopePart @ '': '' @ description))"

section \<open>Commit Orchestrator (GitService)\<close>

text \<open>
  The calls the orchestrator makes to its collaborators and the notifications it sends,
  in the order they happen: \<^verbatim>\<open>repository.add([uri])\<close>, \<^verbatim>\<open>simpleGitInstance.add(filePaths)\<close>,
  \<^verbatim>\<open>repository.commit\<close> and \<^verbatim>\<open>simpleGitInstance.commit\<close> with the message and
  whether the amend option is passed, the two message boxes, and
  \<^verbatim>\<open>_onDidGitStateChange.fire()\<close>.
\<close>

datatype event =
    RepositoryAdd fsPath
  | SimpleGitAdd "string list"
  | RepositoryCommit string bool
  | SimpleGitCommit string bool
  | ShowInformationMessage string
  | ShowErrorMessage string
  | FireGitStateChange

text \<open>
  What a commit attempt can change: the keyed store of the extension context and the
  log of events, oldest first.
\<close>

record world =
  storage :: workspaceState
  events :: "event list"

text \<open>
  The collaborators: the host's \<^verbatim>\<open>Repository\<close> and the simple-git instance. A call
  resolves (\<open>None\<close>) or rejects with a thrown value; what it does may depend on
  everything that happened before, so each takes the log of events so far.
  \<^verbatim>\<open>simpleGitInstance_present\<close> tells whether \<^verbatim>\<open>_simpleGitInstances\<close> holds an instance
  for a root; \<^verbatim>\<open>asRelativePath\<close> is \<^verbatim>\<open>vscode.workspace.asRelativePath(uri, false)\<close>.
\<close>

record clients =
  repository_add :: "event list \<Rightarrow> fsPath \<Rightarrow> thrown option"
  repository_commit :: "event list \<Rightarrow> string \<Rightarrow> bool \<Rightarrow> thrown option"
  simpleGit_add :: "event list \<Rightarrow> string list \<Rightarrow> thrown option"
  simpleGit_commit :: "event list \<Rightarrow> string \<Rightarrow> bool \<Rightarrow> thrown option"
  simpleGitInstance_present :: "fsPath \<Rightarrow> bool"
  asRelativePath :: "fsPath \<Rightarrow> string"

type_synonym outcome = "(thrown + unit) \<times> world"

definition log_event :: "world \<Rightarrow> event \<Rightarrow> world" where
  "log_event w e = w\<lparr>events := events w @ [e]\<rparr>"

definition settle :: "thrown option \<Rightarrow> world \<Rightarrow> outcome" where
  "settle r w = (case r of None \<Rightarrow> (Inr (), w) | Some error \<Rightarrow> (Inl error, w))"

text \<open>The loop \<^verbatim>\<open>for (const uri of uris) { await repository.add([uri]); }\<close>.\<close>

fun addEach :: "clients \<Rightarrow> fsPath list \<Rightarrow> world \<Rightarrow> outcome" where
  "addEach cl [] w = (Inr (), w)"
| "addEach cl (u # us) w =
     (case settle (repository_add cl (events w) u) (log_event w (RepositoryAdd u)) of
        (Inl error, w') \<Rightarrow> (Inl error, w')
      | (Inr ok, w') \<Rightarrow> addEach cl us w')"

subsection \<open>The variant with the simple-git fallback\<close>

definition stageWithSimpleGit :: "clients \<Rightarrow> Repository \<Rightarrow> fsPath list \<Rightarrow> world \<Rightarrow> outcome" where
  "stageWithSimpleGit cl repository files w =
     (if \<not> simpleGitInstance_present cl (rootUri repository)
      then (Inl (Error ''Simple-git instance not found for repository''), w)
      else (let filePaths = map (asRelativePath cl) files
            in case settle (simpleGit_add cl (events w) filePaths)
                      (log_event w (SimpleGitAdd filePaths)) of
                 (Inl error, w') \<Rightarrow>
                   (Inl (Error (''Failed to stage files: '' @ errorMessage error)), w')
               | (Inr ok, w') \<Rightarrow> (Inr ok, w')))"

definition stageSelectedFiles :: "clients \<Rightarrow> Repository \<Rightarrow> world \<Rightarrow> outcome" where
  "stageSelectedFiles cl repository w =
     (let selectedUris = getSelectedFiles (storage w) (rootUri repository)
      in if length selectedUris = 0
         then (case getChangedFiles repository of
                 Inl error \<Rightarrow> (Inl error, w)
               | Inr changedFiles \<Rightarrow>
                   if length changedFiles = 0
                   then (Inl (Error ''No changed files to stage. Make some changes first.''), w)
                   else (case addEach cl changedFiles w of
                           (Inl error, w') \<Rightarrow> stageWithSimpleGit cl repository changedFiles w'
                         | (Inr ok, w') \<Rightarrow> (Inr ok, w')))
         else (case addEach cl selectedUris w of
                 (Inl error, w') \<Rightarrow> stageWithSimpleGit cl repository selectedUris w'
               | (Inr ok, w') \<Rightarrow> (Inr ok, w')))"

definition commitWithSimpleGit ::
  "clients \<Rightarrow> Repository \<Rightarrow> string \<Rightarrow> bool \<Rightarrow> world \<Rightarrow> outcome" where
  "commitWithSimpleGit cl repository message amend w =
     (if \<not> simpleGitInstance_present cl (rootUri repository)
      then (Inl (Error ''Simple-git instance not found for repository''), w)
      else settle (simpleGit_commit cl (events w) message amend)
             (log_event w (SimpleGitCommit message amend)))"

text \<open>\<^verbatim>\<open>if (!amend) { await this.stageSelectedFiles(repository); }\<close>\<close>

definition stageUnlessAmend :: "clients \<Rightarrow> Repository \<Rightarrow> bool \<Rightarrow> world \<Rightarrow> outcome" where
  "stageUnlessAmend cl repository amend w =
     (if \<not> amend then stageSelectedFiles cl repository w else (Inr (), w))"

text \<open>The inner \<^verbatim>\<open>try\<close>: the host's commit first, simple-git when it rejects.\<close>

definition commitWithFallback ::
  "clients \<Rightarrow> Repository \<Rightarrow> string \<Rightarrow> bool \<Rightarrow> world \<Rightarrow> outcome" where
  "commitWithFallback cl repository message amend w =
     (case settle (repository_commit cl (events w) message amend)
             (log_event w (RepositoryCommit message amend)) of
        (Inl vscodeGitError, w') \<Rightarrow> commitWithSimpleGit cl repository message amend w'
      | (Inr ok, w') \<Rightarrow> (Inr ok, w'))"

text \<open>The body of the outer \<^verbatim>\<open>try\<close> of \<^verbatim>\<open>commit\<close>.\<close>

definition commitAttempt ::
  "clients \<Rightarrow> Repository \<Rightarrow> string \<Rightarrow> bool \<Rightarrow> world \<Rightarrow> outcome" where
  "commitAttempt cl repository message amend w =
     (case state repository of
        None \<Rightarrow> (Inl (Error ''Repository state is not available''), w)
      | Some st \<Rightarrow>
          (case stageUnlessAmend cl repository amend w of
             (Inl error, w1) \<Rightarrow> (Inl error, w1)
           | (Inr staged, w1) \<Rightarrow>
               (case commitWithFallback cl repository message amend w1 of
                  (Inl error, w2) \<Rightarrow> (Inl error, w2)
                | (Inr committed, w2) \<Rightarrow>
                    (let w3 = log_event w2 (ShowInformationMessage ''Commit successful!'');
                         w4 = w3\<lparr>storage := clearSelection (storage w3) (rootUri repository)\<rparr>;
                         w5 = log_event w4 FireGitStateChange
                     in (Inr (), w5)))))"

definition commit :: "clients \<Rightarrow> Repository \<Rightarrow> string \<Rightarrow> bool \<Rightarrow> world \<Rightarrow> outcome" where
  "commit cl repository message amend w =
     (if trim message = [] then (Inl (Error ''Commit message cannot be empty''), w)
      else (case commitAttempt cl repository message amend w of
              (Inl error, w') \<Rightarrow>
                (let errorText = errorMessage error;
                     w'' = log_event w' (ShowErrorMessage (''Commit failed: '' @ errorText))
                 in (Inl (Error (''Commit failed: '' @ errorText)), w''))
            | (Inr ok, w') \<Rightarrow> (Inr ok, w')))"

subsection \<open>The variant without fallback\<close>


definition commit_plain :: "clients \<Rightarrow> Repository \<Rightarrow> string \<Rightarrow> bool \<Rightarrow> world \<Rightarrow> outcome" where
  "commit_plain cl repository message amend w =
     (if trim message = [] then (Inl (Error ''Commit message cannot be empty''), w)
      else (case settle (repository_commit cl (events w) message amend)
                   (log_event w (RepositoryCommit message amend)) of
              (Inl error, w') \<Rightarrow> (Inl (Error (''Commit failed: '' @ errorMessage error)), w')
            | (Inr ok, w') \<Rightarrow>
                (let w1 = w'\<lparr>storage := clearSelection (storage w') (rootUri repository)\<rparr>;
                     w2 = log_event w1 FireGitStateChange
                 in (Inr (), w2))))"

subsection \<open>Inputs of the scenarios\<close>

text \<open>
  Collaborators that never reject and collaborators that always do, a repository whose
  changed files are \<open>b.txt\<close> (modified) and \<open>c.txt\<close> (untracked), one without any
  change, a simple-git instance whose diff is one line of 100000 characters, a world in
  which nothing was ever selected and one in which \<open>b.txt\<close> is selected.
\<close>

definition reliable_clients :: clients where
  "reliable_clients =
     \<lparr>repository_add = (\<lambda>log u. None),
      repository_commit = (\<lambda>log message amend. None),
      simpleGit_add = (\<lambda>log paths. None),
      simpleGit_commit = (\<lambda>log message amend. None),
      simpleGitInstance_present = (\<lambda>root. True),
      asRelativePath = drop 6\<rparr>"

definition failing_clients :: clients where
  "failing_clients =
     \<lparr>repository_add = (\<lambda>log u. Some (Error ''Failed to execute git'')),
      repository_commit = (\<lambda>log message amend. Some (Error ''Failed to execute git'')),
      simpleGit_add = (\<lambda>log paths. Some (Error ''fatal: unable to write index'')),
      simpleGit_commit = (\<lambda>log message amend. Some (Error ''fatal: unable to write index'')),
      simpleGitInstance_present = (\<lambda>root. True),
      asRelativePath = drop 6\<rparr>"

definition scenario_repository :: Repository where
  "scenario_repository =
     \<lparr>rootUri = ''/repo'',
      state = Some \<lparr>indexChanges = [],
                    workingTreeChanges = [\<lparr>uri = ''/repo/b.txt'', status = Some 2\<rparr>],
                    untrackedChanges = [\<lparr>uri = ''/repo/c.txt'', status = None\<rparr>]\<rparr>\<rparr>"


definition long_line_instances :: "fsPath \<Rightarrow> diffClient option" where
  "long_line_instances = (\<lambda>root. Some (\<lambda>args. Inr (replicate 100000 CHR ''x'')))"


definition selected_world :: world where
  "selected_world = \<lparr>storage = [selectionKey ''/repo'' \<mapsto> [''/repo/b.txt'']], events = []\<rparr>"

section \<open>Facts about the array primitives\<close>

lemma indexOf_lower: "- 1 \<le> indexOf xs x"
  by (induction xs) (auto simp: Let_def)

lemma indexOf_none: "indexOf xs x = - 1 \<longleftrightarrow> x \<notin> set xs"
proof (induction xs)
  case Nil
  then show ?case by simp
next
  case (Cons y ys)
  have "indexOf ys x + 1 \<noteq> - 1"
    using indexOf_lower [of ys x] by linarith
  with Cons show ?case by (auto simp: Let_def)
qed

lemma indexOf_found: "indexOf xs x > - 1 \<longleftrightarrow> x \<in> set xs"
  using indexOf_none [of xs x] indexOf_lower [of xs x] by linarith

lemma splice_indexOf: "x \<in> set xs \<Longrightarrow> splice_js xs (nat (indexOf xs x)) 1 = remove1 x xs"
proof (induction xs)
  case Nil
  then show ?case by simp
next
  case (Cons y ys)
  show ?case
  proof (cases "y = x")
    case True
    then show ?thesis by (simp add: splice_js_def)
  next
    case False
    with Cons.prems have mem: "x \<in> set ys" by simp
    then have "indexOf ys x \<noteq> - 1" by (simp add: indexOf_none)
    moreover have "- 1 \<le> indexOf ys x" by (rule indexOf_lower)
    ultimately have nn: "0 \<le> indexOf ys x" by linarith
    then have "nat (indexOf ys x + 1) = Suc (nat (indexOf ys x))" by simp
    with False mem Cons.IH \<open>indexOf ys x \<noteq> - 1\<close> show ?thesis
      by (simp add: splice_js_def Let_def)
  qed
qed

lemma indexOf_push_fresh: "x \<notin> set xs \<Longrightarrow> indexOf (push xs x) x = int (length xs)"
  by (induction xs) (auto simp: push_def Let_def)

lemma splice_push_last: "splice_js (push xs x) (length xs) 1 = xs"
  by (simp add: splice_js_def push_def)

lemma getSelectedFiles_update:
  "getSelectedFiles (ws_update ws (selectionKey r) v) r = v"
  by (simp add: getSelectedFiles_def ws_get_def ws_update_def)

lemma toggle_selected:
  "getSelectedFiles (toggleFileSelection ws f r) r =
     (if f \<in> set (getSelectedFiles ws r) then remove1 f (getSelectedFiles ws r)
      else getSelectedFiles ws r @ [f])"
proof (cases "f \<in> set (getSelectedFiles ws r)")
  case True
  then have "indexOf (ws_get ws (selectionKey r) []) f > - 1"
    by (simp add: indexOf_found getSelectedFiles_def)
  with True show ?thesis
    using splice_indexOf [of f "ws_get ws (selectionKey r) []"]
    by (simp add: toggleFileSelection_def Let_def getSelectedFiles_update)
       (simp add: getSelectedFiles_def)
next
  case False
  then have "\<not> indexOf (ws_get ws (selectionKey r) []) f > - 1"
    by (simp add: indexOf_found getSelectedFiles_def)
  with False show ?thesis
    by (simp add: toggleFileSelection_def Let_def getSelectedFiles_update push_def)
       (simp add: getSelectedFiles_def)
qed

lemma setFileSelection_selected:
  "getSelectedFiles (setFileSelection ws f r b) r =
     (if b then (if f \<in> set (getSelectedFiles ws r) then getSelectedFiles ws r
                 else getSelectedFiles ws r @ [f])
      else (if f \<in> set (getSelectedFiles ws r) then remove1 f (getSelectedFiles ws r)
            else getSelectedFiles ws r))"
proof (cases "f \<in> set (getSelectedFiles ws r)")
  case True
  then have pos: "indexOf (ws_get ws (selectionKey r) []) f > - 1"
    by (simp add: indexOf_found getSelectedFiles_def)
  then have ne: "indexOf (ws_get ws (selectionKey r) []) f \<noteq> - 1" by simp
  from True pos ne show ?thesis
    using splice_indexOf [of f "ws_get ws (selectionKey r) []"]
    by (simp add: setFileSelection_def Let_def getSelectedFiles_update)
       (simp add: getSelectedFiles_def)
next
  case False
  then have eq: "indexOf (ws_get ws (selectionKey r) []) f = - 1"
    by (simp add: indexOf_none getSelectedFiles_def)
  with False show ?thesis
    by (simp add: setFileSelection_def Let_def getSelectedFiles_update push_def)
       (simp add: getSelectedFiles_def)
qed

lemma clearSelection_selected: "getSelectedFiles (clearSelection ws r) r = []"
  by (simp add: clearSelection_def getSelectedFiles_update)

lemma selectionKey_inj: "selectionKey q = selectionKey r \<longleftrightarrow> q = r"
  by (simp add: selectionKey_def)

lemma getSelectedFiles_update_other:
  "q \<noteq> r \<Longrightarrow> getSelectedFiles (ws_update ws (selectionKey r) v) q = getSelectedFiles ws q"
  by (simp add: getSelectedFiles_def ws_get_def ws_update_def selectionKey_inj)

lemma toggle_frame:
  "q \<noteq> r \<Longrightarrow> getSelectedFiles (toggleFileSelection ws f r) q = getSelectedFiles ws q"
  by (simp add: toggleFileSelection_def Let_def getSelectedFiles_update_other)

lemma setFileSelection_frame:
  "q \<noteq> r \<Longrightarrow> getSelectedFiles (setFileSelection ws f r b) q = getSelectedFiles ws q"
  by (simp add: setFileSelection_def Let_def getSelectedFiles_update_other)

lemma clearSelection_frame:
  "q \<noteq> r \<Longrightarrow> getSelectedFiles (clearSelection ws r) q = getSelectedFiles ws q"
  by (simp add: clearSelection_def getSelectedFiles_update_other)

section \<open>Selection Store: the stored list stays free of duplicates\<close>

text \<open>
  Claim C10. Starting from a stored selection list in which no file path occurs twice,
  \<^verbatim>\<open>toggleFileSelection\<close>, \<^verbatim>\<open>setFileSelection\<close> (with either boolean) and
  \<^verbatim>\<open>clearSelection\<close>, applied to any repository \<open>r\<close>, leave the list stored for every
  repository \<open>q\<close> (the one operated on or another) free of duplicates; the empty list
  read on first reference is free of duplicates.
\<close>

theorem selection_ops_preserve_distinct:
  "distinct (getSelectedFiles (\<lambda>k. None) q) \<and>
   (distinct (getSelectedFiles ws q) \<longrightarrow>
      distinct (getSelectedFiles (toggleFileSelection ws f r) q) \<and>
      distinct (getSelectedFiles (setFileSelection ws f r True) q) \<and>
      distinct (getSelectedFiles (setFileSelection ws f r False) q) \<and>
      distinct (getSelectedFiles (clearSelection ws r) q))"
proof (intro conjI impI)
  show "distinct (getSelectedFiles (\<lambda>k. None) q)"
    by (simp add: getSelectedFiles_def ws_get_def)
next
  assume d: "distinct (getSelectedFiles ws q)"
  show "distinct (getSelectedFiles (toggleFileSelection ws f r) q)"
  proof (cases "q = r")
    case True
    with d show ?thesis by (simp add: toggle_selected)
  next
    case False
    with d show ?thesis by (simp add: toggle_frame)
  qed
  show "distinct (getSelectedFiles (setFileSelection ws f r True) q)"
  proof (cases "q = r")
    case True
    with d show ?thesis by (simp add: setFileSelection_selected)
  next
    case False
    with d show ?thesis by (simp add: setFileSelection_frame)
  qed
  show "distinct (getSelectedFiles (setFileSelection ws f r False) q)"
  proof (cases "q = r")
    case True
    with d show ?thesis by (simp add: setFileSelection_selected)
  next
    case False
    with d show ?thesis by (simp add: setFileSelection_frame)
  qed
  show "distinct (getSelectedFiles (clearSelection ws r) q)"
  proof (cases "q = r")
    case True
    then show ?thesis by (simp add: clearSelection_selected)
  next
    case False
    with d show ?thesis by (simp add: clearSelection_frame)
  qed
qed

theorem selection_ops_preserve_distinct_witness:
  "distinct (getSelectedFiles [selectionKey ''/repo'' \<mapsto> [''/repo/a.txt'', ''/repo/b.txt'']] ''/repo'') \<and>
   getSelectedFiles (toggleFileSelection [selectionKey ''/repo'' \<mapsto> [''/repo/a.txt'', ''/repo/b.txt'']]
      ''/repo/a.txt'' ''/repo'') ''/repo'' = [''/repo/b.txt''] \<and>
   distinct (getSelectedFiles (toggleFileSelection [selectionKey ''/repo'' \<mapsto> [''/repo/a.txt'', ''/repo/b.txt'']]
      ''/repo/a.txt'' ''/repo'') ''/repo'') \<and>
   distinct (getSelectedFiles (setFileSelection [selectionKey ''/repo'' \<mapsto> [''/repo/a.txt'', ''/repo/b.txt'']]
      ''/repo/a.txt'' ''/repo'' True) ''/repo'') \<and>
   distinct (getSelectedFiles (setFileSelection [selectionKey ''/repo'' \<mapsto> [''/repo/a.txt'', ''/repo/b.txt'']]
      ''/repo/a.txt'' ''/repo'' False) ''/repo'') \<and>
   distinct (getSelectedFiles (clearSelection [selectionKey ''/repo'' \<mapsto> [''/repo/a.txt'', ''/repo/b.txt'']]
      ''/repo'') ''/repo'')"
proof -
  let ?ws = "[selectionKey ''/repo'' \<mapsto> [''/repo/a.txt'', ''/repo/b.txt'']]"
  have h: "distinct (getSelectedFiles ?ws ''/repo'')"
    by (simp add: getSelectedFiles_def ws_get_def)
  have t: "getSelectedFiles (toggleFileSelection ?ws ''/repo/a.txt'' ''/repo'') ''/repo'' = [''/repo/b.txt'']"
    by (simp add: toggle_selected) (simp add: getSelectedFiles_def ws_get_def)
  from h t selection_ops_preserve_distinct [of "''/repo''" ?ws "''/repo/a.txt''" "''/repo''"]
  show ?thesis by blast
qed

section \<open>Selection Store: toggling twice\<close>

lemma toggle_keeps_distinct:
  "distinct (getSelectedFiles ws q) \<Longrightarrow> distinct (getSelectedFiles (toggleFileSelection ws f r) q)"
  by (cases "q = r") (simp_all add: toggle_selected toggle_frame)

lemma setFileSelection_keeps_distinct:
  "distinct (getSelectedFiles ws q) \<Longrightarrow>
     distinct (getSelectedFiles (setFileSelection ws f r b) q)"
  by (cases "q = r") (simp_all add: setFileSelection_selected setFileSelection_frame)

lemma clearSelection_keeps_distinct:
  "distinct (getSelectedFiles ws q) \<Longrightarrow> distinct (getSelectedFiles (clearSelection ws r) q)"
  by (cases "q = r") (simp_all add: clearSelection_selected clearSelection_frame)

text \<open>Every store the service can be in lists no path twice, for any repository.\<close>

lemma reachable_distinct: "reachable ws \<Longrightarrow> distinct (getSelectedFiles ws q)"
proof (induction rule: reachable.induct)
  case reachable_initial
  show ?case by (simp add: getSelectedFiles_def ws_get_def)
next
  case (reachable_toggle ws fileUri repoUri)
  then show ?case by (simp add: toggle_keeps_distinct)
next
  case (reachable_set ws fileUri repoUri isSelected)
  then show ?case by (simp add: setFileSelection_keeps_distinct)
next
  case (reachable_clear ws repoUri)
  then show ?case by (simp add: clearSelection_keeps_distinct)
qed

text \<open>
  On a list without duplicates the first toggle of a selected path removes its only
  occurrence and the second appends it; the first toggle of an unselected path appends
  it and the second removes it again.
\<close>

lemma toggle_twice_of_distinct:
  "distinct (getSelectedFiles ws r) \<Longrightarrow>
   set (getSelectedFiles (toggleFileSelection (toggleFileSelection ws f r) f r) q)
     = set (getSelectedFiles ws q)"
proof (cases "q = r")
  case False
  then show ?thesis by (simp add: toggle_frame)
next
  case True
  assume d: "distinct (getSelectedFiles ws r)"
  show ?thesis
  proof (cases "f \<in> set (getSelectedFiles ws r)")
    case mem: True
    from d have "f \<notin> set (remove1 f (getSelectedFiles ws r))" by simp
    with mem d True show ?thesis by (auto simp: toggle_selected)
  next
    case nmem: False
    then have "remove1 f (getSelectedFiles ws r @ [f]) = getSelectedFiles ws r"
      by (simp add: remove1_append)
    with nmem True show ?thesis by (simp add: toggle_selected)
  qed
qed

text \<open>
  Claim C8. For every repository \<open>r\<close>, every file path \<open>f\<close> and every selection state
  the store can be in, toggling \<open>f\<close> for \<open>r\<close> twice in succession leaves the set of
  selected file paths as it was, for \<open>r\<close> and for every other repository \<open>q\<close>.
\<close>

theorem toggle_twice_selection_set:
  "reachable ws \<Longrightarrow>
   set (getSelectedFiles (toggleFileSelection (toggleFileSelection ws f r) f r) q)
     = set (getSelectedFiles ws q)"
proof -
  assume "reachable ws"
  then have "distinct (getSelectedFiles ws r)"
    by (rule reachable_distinct)
  then show ?thesis
    by (rule toggle_twice_of_distinct)
qed

theorem toggle_twice_selection_set_witness:
  "reachable (toggleFileSelection (toggleFileSelection (\<lambda>key. None) ''/repo/a.txt'' ''/repo'')
                ''/repo/b.txt'' ''/repo'') \<and>
   getSelectedFiles
     (toggleFileSelection (toggleFileSelection (\<lambda>key. None) ''/repo/a.txt'' ''/repo'')
        ''/repo/b.txt'' ''/repo'')
     ''/repo'' = [''/repo/a.txt'', ''/repo/b.txt''] \<and>
   set (getSelectedFiles
          (toggleFileSelection
             (toggleFileSelection
                (toggleFileSelection (toggleFileSelection (\<lambda>key. None) ''/repo/a.txt'' ''/repo'')
                   ''/repo/b.txt'' ''/repo'')
                ''/repo/a.txt'' ''/repo'')
             ''/repo/a.txt'' ''/repo'')
          ''/repo'')
     = {''/repo/a.txt'', ''/repo/b.txt''}"
proof -
  let ?ws = "toggleFileSelection (toggleFileSelection (\<lambda>key. None) ''/repo/a.txt'' ''/repo'')
               ''/repo/b.txt'' ''/repo''"
  have h: "reachable ?ws"
    by (intro reachable_toggle reachable_initial)
  have e: "getSelectedFiles (\<lambda>key. None) ''/repo'' = []"
    by (simp add: getSelectedFiles_def ws_get_def)
  have s: "getSelectedFiles ?ws ''/repo'' = [''/repo/a.txt'', ''/repo/b.txt'']"
    by (simp add: toggle_selected e)
  from toggle_twice_selection_set [OF h, of "''/repo/a.txt''" "''/repo''" "''/repo''"] h s
  show ?thesis by simp
qed

section \<open>Message Heuristic Pipeline: an assembled prompt is always classified as a fix\<close>

lemma toLowerCase_append: "toLowerCase (a @ b) = toLowerCase a @ toLowerCase b"
  by (simp add: toLowerCase_def)

lemma includes_append_right: "includes_str b k \<Longrightarrow> includes_str (a @ b) k"
  unfolding includes_str_def sublist_def
proof -
  assume "\<exists>ps ss. b = ps @ k @ ss"
  then obtain ps ss where "b = ps @ k @ ss" by blast
  then have "a @ b = (a @ ps) @ k @ ss" by simp
  then show "\<exists>ps ss. a @ b = ps @ k @ ss" by blast
qed

lemma template_tail_fix:
  \<open>includes_str (toLowerCase ''\<newline>\<newline>Please generate a commit message that:\<newline>1. Uses conventional commit format (feat:, fix:, docs:, style:, refactor:, test:, chore:)\<newline>2. Is concise but descriptive (50-72 characters for the title)\<newline>3. Captures the main purpose of these changes\<newline>4. Uses present tense (e.g., "add feature" not "added feature")\<newline>\<newline>Return only the commit message, no additional text.'') ''fix''\<close>
  by code_simp

lemma prompt_includes_fix:
  "includes_str (toLowerCase (createDetailedCommitPrompt items)) ''fix''"
  unfolding createDetailedCommitPrompt_def Let_def
  by (intro includes_append_right template_tail_fix | simp only: toLowerCase_append)+

lemma firstMatch_typeMap_fix:
  "includes_str lp ''fix'' \<Longrightarrow> firstMatch typeMap lp = Some ''fix''"
  by (simp add: typeMap_def)

lemma determineCommitType_fix:
  "includes_str (toLowerCase p) ''fix'' \<Longrightarrow> determineCommitType p = ''fix''"
  by (simp add: determineCommitType_def firstMatch_typeMap_fix)

text \<open>
  Claim C2. For every non-empty list of file-change analyses, \<^verbatim>\<open>determineCommitType\<close>
  applied to the prompt that \<^verbatim>\<open>createDetailedCommitPrompt\<close> assembles returns \<open>fix\<close>:
  the template's own instructions contain \<open>fix\<close> and the type table tries the \<open>fix\<close>
  keywords first. The message of \<^verbatim>\<open>generateIntelligentCommitMessage\<close> for such a
  prompt therefore starts with \<open>fix\<close>, whatever the diffs hold.
\<close>

theorem assembled_prompt_type_fix:
  "diffsAndContext \<noteq> [] \<Longrightarrow>
   determineCommitType (createDetailedCommitPrompt diffsAndContext) = ''fix'' \<and>
   (\<exists>rest. generateIntelligentCommitMessage (createDetailedCommitPrompt diffsAndContext)
             = Some (''fix'' @ rest))"
  using prompt_includes_fix [of diffsAndContext]
  by (simp add: determineCommitType_fix generateIntelligentCommitMessage_def Let_def)

theorem assembled_prompt_type_fix_witness:
  "[\<lparr>fileName = ''README.md'', changeType = ''M'', diff = ''+new test for the docs'',
      summary = ''Modified file: README.md''\<rparr>] \<noteq> [] \<and>
   determineCommitType (createDetailedCommitPrompt
      [\<lparr>fileName = ''README.md'', changeType = ''M'', diff = ''+new test for the docs'',
         summary = ''Modified file: README.md''\<rparr>]) = ''fix''"
  using assembled_prompt_type_fix [of "[\<lparr>fileName = ''README.md'', changeType = ''M'',
      diff = ''+new test for the docs'', summary = ''Modified file: README.md''\<rparr>]"]
  by simp

section \<open>Message Heuristic Pipeline: the readme scenario\<close>

text \<open>
  Claim C9, as stated, at the prompt \<open>Update README and package.json\<close>: it contains
  \<open>readme\<close> and \<open>update\<close> and none of \<open>fix\<close>, \<open>bug\<close>, \<open>error\<close>, \<open>test\<close>, \<open>spec\<close>,
  the type is \<open>docs\<close>, yet the scope table tries \<open>package.json\<close> before \<open>readme\<close>, so
  the scope is \<open>deps\<close> and the message is not the one claimed.
\<close>

theorem readme_scenario_counterexample:
  "includes_str (toLowerCase ''Update README and package.json'') ''readme'' \<and>
   includes_str (toLowerCase ''Update README and package.json'') ''update'' \<and>
   \<not> includes_str (toLowerCase ''Update README and package.json'') ''fix'' \<and>
   \<not> includes_str (toLowerCase ''Update README and package.json'') ''bug'' \<and>
   \<not> includes_str (toLowerCase ''Update README and package.json'') ''error'' \<and>
   \<not> includes_str (toLowerCase ''Update README and package.json'') ''test'' \<and>
   \<not> includes_str (toLowerCase ''Update README and package.json'') ''spec'' \<and>
   determineCommitType ''Update README and package.json'' = ''docs'' \<and>
   determineScope ''Update README and package.json'' = ''deps'' \<and>
   generateIntelligentCommitMessage ''Update README and package.json''
     = Some ''docs(deps): update documentation''"
  by code_simp

text \<open>
  Claim C9, amended. For a prompt whose lower-cased text contains \<open>readme\<close> and none of
  \<open>fix\<close>, \<open>bug\<close>, \<open>error\<close>, \<open>test\<close>, \<open>spec\<close> and \<open>package.json\<close>, the type is
  \<open>docs\<close>, the scope is \<open>docs\<close>, the description table has no entry for \<open>docs\<close>, and
  the message is \<open>docs(docs): update documentation\<close>.
\<close>

theorem readme_scenario_docs:
  assumes "includes_str (toLowerCase prompt) ''readme''"
    and "\<not> includes_str (toLowerCase prompt) ''fix''"
    and "\<not> includes_str (toLowerCase prompt) ''bug''"
    and "\<not> includes_str (toLowerCase prompt) ''error''"
    and "\<not> includes_str (toLowerCase prompt) ''test''"
    and "\<not> includes_str (toLowerCase prompt) ''spec''"
    and "\<not> includes_str (toLowerCase prompt) ''package.json''"
  shows "determineCommitType prompt = ''docs'' \<and> determineScope prompt = ''docs'' \<and>
         map_of getDescriptionMap ''docs'' = None \<and>
         generateIntelligentCommitMessage prompt = Some ''docs(docs): update documentation''"
proof -
  have t: "determineCommitType prompt = ''docs''"
    using assms by (simp add: determineCommitType_def typeMap_def)
  have s: "determineScope prompt = ''docs''"
    using assms by (simp add: determineScope_def scopeMap_def)
  have m: "map_of getDescriptionMap ''docs'' = None"
    by (simp add: getDescriptionMap_def)
  have d: "generateDescription prompt ''docs'' = ''update documentation''"
    by (simp add: generateDescription_def getDescriptionMap_def getDefaultDescription_def)
  from t s m d show ?thesis
    by (simp add: generateIntelligentCommitMessage_def)
qed

theorem readme_scenario_docs_witness:
  "includes_str (toLowerCase ''Update the README'') ''readme'' \<and>
   \<not> includes_str (toLowerCase ''Update the README'') ''fix'' \<and>
   \<not> includes_str (toLowerCase ''Update the README'') ''bug'' \<and>
   \<not> includes_str (toLowerCase ''Update the README'') ''error'' \<and>
   \<not> includes_str (toLowerCase ''Update the README'') ''test'' \<and>
   \<not> includes_str (toLowerCase ''Update the README'') ''spec'' \<and>
   \<not> includes_str (toLowerCase ''Update the README'') ''package.json'' \<and>
   generateIntelligentCommitMessage ''Update the README''
     = Some ''docs(docs): update documentation''"
proof -
  have h1: "includes_str (toLowerCase ''Update the README'') ''readme''" by code_simp
  have h2: "\<not> includes_str (toLowerCase ''Update the README'') ''fix''" by code_simp
  have h3: "\<not> includes_str (toLowerCase ''Update the README'') ''bug''" by code_simp
  have h4: "\<not> includes_str (toLowerCase ''Update the README'') ''error''" by code_simp
  have h5: "\<not> includes_str (toLowerCase ''Update the README'') ''test''" by code_simp
  have h6: "\<not> includes_str (toLowerCase ''Update the README'') ''spec''" by code_simp
  have h7: "\<not> includes_str (toLowerCase ''Update the README'') ''package.json''" by code_simp
  from readme_scenario_docs [OF h1 h2 h3 h4 h5 h6 h7] h1 h2 h3 h4 h5 h6 h7
  show ?thesis by blast
qed

section \<open>Change Enumerator: order and duplicates\<close>

lemma foldl_set_add:
  "foldl set_add acc xs = acc @ filter (\<lambda>y. y \<notin> set acc) (new_Set xs)"
proof (induction xs arbitrary: acc)
  case Nil
  then show ?case by (simp add: new_Set_def)
next
  case (Cons x xs)
  have one: "set_add [] x = [x]"
    by (simp add: set_add_def)
  have hd: "new_Set (x # xs) = x # filter (\<lambda>y. y \<noteq> x) (new_Set xs)"
    using Cons.IH [of "[x]"] by (simp add: new_Set_def one)
  show ?case
  proof (cases "x \<in> set acc")
    case True
    then have "filter (\<lambda>y. y \<notin> set acc) (filter (\<lambda>y. y \<noteq> x) (new_Set xs))
                 = filter (\<lambda>y. y \<notin> set acc) (new_Set xs)"
      by (auto intro: filter_cong)
    moreover from True have "set_add acc x = acc"
      by (simp add: set_add_def)
    ultimately show ?thesis
      using True Cons.IH [of acc] hd by simp
  next
    case False
    have "filter (\<lambda>y. y \<notin> set (acc @ [x])) (new_Set xs)
            = filter (\<lambda>y. y \<notin> set acc) (filter (\<lambda>y. y \<noteq> x) (new_Set xs))"
      by (auto intro: filter_cong)
    moreover from False have "set_add acc x = acc @ [x]"
      by (simp add: set_add_def)
    ultimately show ?thesis
      using False Cons.IH [of "acc @ [x]"] hd by simp
  qed
qed

lemma new_Set_Cons: "new_Set (x # xs) = x # filter (\<lambda>y. y \<noteq> x) (new_Set xs)"
proof -
  have "set_add [] x = [x]"
    by (simp add: set_add_def)
  then have "new_Set (x # xs) = foldl set_add [x] xs"
    by (simp add: new_Set_def)
  then show ?thesis
    by (simp add: foldl_set_add)
qed

lemma new_Set_Nil: "new_Set [] = []"
  by (simp add: new_Set_def)

lemma set_new_Set: "set (new_Set xs) = set xs"
  by (induction xs) (auto simp: new_Set_Nil new_Set_Cons)

lemma distinct_new_Set: "distinct (new_Set xs)"
  by (induction xs) (auto simp: new_Set_Nil new_Set_Cons)

lemma new_Set_append:
  "new_Set (xs @ ys) = new_Set xs @ filter (\<lambda>y. y \<notin> set xs) (new_Set ys)"
proof -
  have "new_Set (xs @ ys) = foldl set_add (new_Set xs) ys"
    by (simp add: new_Set_def)
  then show ?thesis
    by (simp add: foldl_set_add set_new_Set)
qed

text \<open>
  Claim C3, as stated, at a repository where \<open>a.txt\<close> is staged and also listed as
  untracked after \<open>b.txt\<close>: the enumeration puts \<open>a.txt\<close> first, at its staged
  occurrence, where the priority order untracked, staged, working tree puts it last.
\<close>

theorem getChangedFiles_priority_counterexample:
  "getChangedFiles \<lparr>rootUri = ''/repo'',
     state = Some \<lparr>indexChanges = [\<lparr>uri = ''/repo/a.txt'', status = Some 2\<rparr>],
                   workingTreeChanges = [],
                   untrackedChanges = [\<lparr>uri = ''/repo/b.txt'', status = None\<rparr>,
                                       \<lparr>uri = ''/repo/a.txt'', status = None\<rparr>]\<rparr>\<rparr>
     = Inr [''/repo/a.txt'', ''/repo/b.txt''] \<and>
   listChanges_spec \<lparr>indexChanges = [\<lparr>uri = ''/repo/a.txt'', status = Some 2\<rparr>],
                     workingTreeChanges = [],
                     untrackedChanges = [\<lparr>uri = ''/repo/b.txt'', status = None\<rparr>,
                                         \<lparr>uri = ''/repo/a.txt'', status = None\<rparr>]\<rparr>
     = [''/repo/b.txt'', ''/repo/a.txt'']"
proof -
  have a: "set_add [] ''/repo/a.txt'' = [''/repo/a.txt'']"
    and b: "set_add [] ''/repo/b.txt'' = [''/repo/b.txt'']"
    and ab: "set_add [''/repo/a.txt''] ''/repo/b.txt'' = [''/repo/a.txt'', ''/repo/b.txt'']"
    and ba: "set_add [''/repo/b.txt''] ''/repo/a.txt'' = [''/repo/b.txt'', ''/repo/a.txt'']"
    and aba: "set_add [''/repo/a.txt'', ''/repo/b.txt''] ''/repo/a.txt'' = [''/repo/a.txt'', ''/repo/b.txt'']"
    and baa: "set_add [''/repo/b.txt'', ''/repo/a.txt''] ''/repo/a.txt'' = [''/repo/b.txt'', ''/repo/a.txt'']"
    by (simp_all add: set_add_def)
  show ?thesis
    by (simp add: getChangedFiles_def listChanges_spec_def new_Set_def a b ab ba aba baa)
qed

text \<open>
  Claim C3, amended. For a repository with state, the enumeration holds every changed
  path once, and a path listed in several categories stands at its first occurrence
  under the order staged, then working tree, then untracked: first the staged paths, then
  the working-tree paths that are not staged, then the untracked paths that are neither.
\<close>

theorem getChangedFiles_order:
  assumes "state repository = Some st"
  shows "\<exists>files. getChangedFiles repository = Inr files \<and>
           distinct files \<and>
           set files = uri ` (set (indexChanges st) \<union> set (workingTreeChanges st)
                               \<union> set (untrackedChanges st)) \<and>
           files = new_Set (map uri (indexChanges st))
                @ filter (\<lambda>p. p \<notin> uri ` set (indexChanges st))
                    (new_Set (map uri (workingTreeChanges st)))
                @ filter (\<lambda>p. p \<notin> uri ` set (indexChanges st)
                               \<and> p \<notin> uri ` set (workingTreeChanges st))
                    (new_Set (map uri (untrackedChanges st)))"
proof -
  let ?all = "map uri (indexChanges st @ workingTreeChanges st @ untrackedChanges st)"
  have r: "getChangedFiles repository = Inr (new_Set ?all)"
    using assms by (simp add: getChangedFiles_def)
  have d: "distinct (new_Set ?all)"
    by (rule distinct_new_Set)
  have s: "set (new_Set ?all) = uri ` (set (indexChanges st) \<union> set (workingTreeChanges st)
                               \<union> set (untrackedChanges st))"
    by (auto simp: set_new_Set)
  have o: "new_Set ?all = new_Set (map uri (indexChanges st))
                @ filter (\<lambda>p. p \<notin> uri ` set (indexChanges st))
                    (new_Set (map uri (workingTreeChanges st)))
                @ filter (\<lambda>p. p \<notin> uri ` set (indexChanges st)
                               \<and> p \<notin> uri ` set (workingTreeChanges st))
                    (new_Set (map uri (untrackedChanges st)))"
    by (simp add: new_Set_append conj_commute)
  from r d s o show ?thesis by metis
qed

theorem getChangedFiles_order_witness:
  "state \<lparr>rootUri = ''/repo'',
     state = Some \<lparr>indexChanges = [\<lparr>uri = ''/repo/a.txt'', status = Some 2\<rparr>],
                   workingTreeChanges = [\<lparr>uri = ''/repo/a.txt'', status = Some 2\<rparr>],
                   untrackedChanges = [\<lparr>uri = ''/repo/b.txt'', status = None\<rparr>]\<rparr>\<rparr>
     = Some \<lparr>indexChanges = [\<lparr>uri = ''/repo/a.txt'', status = Some 2\<rparr>],
             workingTreeChanges = [\<lparr>uri = ''/repo/a.txt'', status = Some 2\<rparr>],
             untrackedChanges = [\<lparr>uri = ''/repo/b.txt'', status = None\<rparr>]\<rparr> \<and>
   getChangedFiles \<lparr>rootUri = ''/repo'',
     state = Some \<lparr>indexChanges = [\<lparr>uri = ''/repo/a.txt'', status = Some 2\<rparr>],
                   workingTreeChanges = [\<lparr>uri = ''/repo/a.txt'', status = Some 2\<rparr>],
                   untrackedChanges = [\<lparr>uri = ''/repo/b.txt'', status = None\<rparr>]\<rparr>\<rparr>
     = Inr [''/repo/a.txt'', ''/repo/b.txt'']"
proof -
  let ?st = "\<lparr>indexChanges = [\<lparr>uri = ''/repo/a.txt'', status = Some 2\<rparr>],
              workingTreeChanges = [\<lparr>uri = ''/repo/a.txt'', status = Some 2\<rparr>],
              untrackedChanges = [\<lparr>uri = ''/repo/b.txt'', status = None\<rparr>]\<rparr>"
  let ?repo = "\<lparr>rootUri = ''/repo'', state = Some ?st\<rparr>"
  have h: "state ?repo = Some ?st" by simp
  from getChangedFiles_order [OF h] h show ?thesis
    by (simp add: new_Set_Cons new_Set_Nil)
qed

section \<open>Diff Reader: truncation of a long diff\<close>

lemma split_nonempty: "split sep s \<noteq> []"
  by (induction s) (auto split: list.splits)

lemma split_no_sep: "sep \<notin> set s \<Longrightarrow> split sep s = [s]"
  by (induction s) auto

lemma split_pieces_no_sep: "l \<in> set (split sep s) \<Longrightarrow> sep \<notin> set l"
  by (induction s arbitrary: l) (auto split: if_splits list.splits)

lemma join_Cons: "join sep (x # xs) = (if xs = [] then x else x @ sep @ join sep xs)"
  by (cases xs) auto

lemma join_take_split_prefix: "prefix (join [sep] (take n (split sep s))) s"
proof (induction s arbitrary: n)
  case Nil
  then show ?case by (cases n) auto
next
  case (Cons c cs)
  show ?case
  proof (cases n)
    case 0
    then show ?thesis by simp
  next
    case (Suc m)
    show ?thesis
    proof (cases "c = sep")
      case True
      with Suc Cons.IH [of m] show ?thesis
        by (simp add: join_Cons)
    next
      case False
      obtain l ls where sp: "split sep cs = l # ls"
        using split_nonempty [of sep cs] by (cases "split sep cs") auto
      with Cons.IH [of "Suc m"] have "prefix (join [sep] (l # take m ls)) cs" by simp
      with False Suc sp show ?thesis
        by (auto simp: join_Cons split: if_splits)
    qed
  qed
qed

lemma length_join_take_split: "length (join [sep] (take n (split sep s))) \<le> length s"
  using join_take_split_prefix [of sep n s] by (rule prefix_length_le)

lemma split_append_sep: "split sep (a @ sep # b) = split sep a @ split sep b"
proof (induction a)
  case Nil
  then show ?case by simp
next
  case (Cons c cs)
  obtain l ls where "split sep cs = l # ls"
    using split_nonempty [of sep cs] by (cases "split sep cs") auto
  with Cons show ?case by simp
qed

lemma split_join:
  "ls \<noteq> [] \<Longrightarrow> (\<And>l. l \<in> set ls \<Longrightarrow> sep \<notin> set l) \<Longrightarrow> split sep (join [sep] ls) = ls"
proof (induction ls)
  case Nil
  then show ?case by simp
next
  case (Cons x xs)
  show ?case
  proof (cases "xs = []")
    case True
    with Cons.prems show ?thesis by (simp add: split_no_sep)
  next
    case False
    with Cons have "split sep (join [sep] xs) = xs" by simp
    moreover have "split sep x = [x]" using Cons.prems by (simp add: split_no_sep)
    ultimately show ?thesis using False
      by (simp add: join_Cons split_append_sep)
  qed
qed

lemma take_split_lines:
  "0 < n \<Longrightarrow> split sep (join [sep] (take n (split sep s))) = take n (split sep s)"
proof (rule split_join)
  assume "0 < n"
  then show "take n (split sep s) \<noteq> []"
    using split_nonempty [of sep s] by (cases n; cases "split sep s") auto
next
  fix l assume "l \<in> set (take n (split sep s))"
  then have "l \<in> set (split sep s)" by (rule in_set_takeD)
  then show "sep \<notin> set l" by (rule split_pieces_no_sep)
qed

lemma truncated_lines:
  "split CHR ''\<newline>'' (join ''\<newline>'' (take 50 (split CHR ''\<newline>'' d)) @ ''\<newline>... (diff truncated for AI analysis)'')
     = take 50 (split CHR ''\<newline>'' d) @ [''... (diff truncated for AI analysis)'']"
proof -
  have "split CHR ''\<newline>'' ''... (diff truncated for AI analysis)'' = [''... (diff truncated for AI analysis)'']"
    by (rule split_no_sep) simp
  moreover have "split CHR ''\<newline>'' (join ''\<newline>'' (take 50 (split CHR ''\<newline>'' d))) = take 50 (split CHR ''\<newline>'' d)"
    by (rule take_split_lines) simp
  ultimately show ?thesis
    using split_append_sep [of "CHR ''\<newline>''" "join ''\<newline>'' (take 50 (split CHR ''\<newline>'' d))" "''... (diff truncated for AI analysis)''"]
    by simp
qed

text \<open>
  Claim C1, as stated, at a diff of one line of 100000 characters for a modified file:
  the text is longer than 2000 characters, so it is cut to its first 50 lines, which is
  all of it, and the marker is appended; the result has 100037 characters.
\<close>

theorem getFileDiff_cap_counterexample:
  "length (getFileDiff long_line_instances None scenario_repository ''src/a.ts'' ''M'') = 100037"
  by (simp add: getFileDiff_def getGitDiff_def long_line_instances_def slice0_def split_no_sep)

text \<open>
  Claim C1, amended. For a change other than an added file whose diff simple-git
  returns (the placeholder standing in for an empty diff): a text of at most 2000
  characters is returned as it is; a longer text is cut to its first 50 lines followed by
  the marker line, so the result has the first 50 lines of the text and the marker as its
  lines and is at most 37 characters longer than the text. Lines are kept whole: there is
  no bound on the number of characters.
\<close>

theorem getFileDiff_truncation:
  assumes "chType \<noteq> ''A''"
    and "simpleGitInstances (rootUri repository) = Some git"
    and "git [''HEAD'', ''--'', relativePath] = Inr gitDiff"
    and "d = (if gitDiff = [] then chType @ '': '' @ relativePath else gitDiff)"
  shows "(length d \<le> 2000 \<longrightarrow>
            getFileDiff simpleGitInstances document repository relativePath chType = d) \<and>
         (length d > 2000 \<longrightarrow>
            getFileDiff simpleGitInstances document repository relativePath chType
              = join ''\<newline>'' (take 50 (split CHR ''\<newline>'' d))
                  @ ''\<newline>... (diff truncated for AI analysis)'' \<and>
            split CHR ''\<newline>''
                (getFileDiff simpleGitInstances document repository relativePath chType)
              = take 50 (split CHR ''\<newline>'' d) @ [''... (diff truncated for AI analysis)''] \<and>
            length (getFileDiff simpleGitInstances document repository relativePath chType)
              \<le> length d + 37)"
proof (intro conjI impI)
  assume "length d \<le> 2000"
  with assms show "getFileDiff simpleGitInstances document repository relativePath chType = d"
    by (simp add: getFileDiff_def getGitDiff_def)
next
  assume long: "length d > 2000"
  with assms show eq: "getFileDiff simpleGitInstances document repository relativePath chType
              = join ''\<newline>'' (take 50 (split CHR ''\<newline>'' d))
                  @ ''\<newline>... (diff truncated for AI analysis)''"
    by (simp add: getFileDiff_def getGitDiff_def slice0_def Let_def)
  show "split CHR ''\<newline>''
                (getFileDiff simpleGitInstances document repository relativePath chType)
              = take 50 (split CHR ''\<newline>'' d) @ [''... (diff truncated for AI analysis)'']"
    unfolding eq by (rule truncated_lines)
  show "length (getFileDiff simpleGitInstances document repository relativePath chType)
              \<le> length d + 37"
    unfolding eq using length_join_take_split [of "CHR ''\<newline>''" 50 d] by simp
qed

theorem getFileDiff_truncation_witness:
  "''M'' \<noteq> ''A'' \<and>
   getFileDiff (\<lambda>root. Some (\<lambda>args. Inr ''-old line\<newline>+new line''))
       None \<lparr>rootUri = ''/repo'', state = None\<rparr> ''src/a.ts'' ''M''
     = ''-old line\<newline>+new line'' \<and>
   length (getFileDiff (\<lambda>root. Some (\<lambda>args. Inr (replicate 3000 CHR ''x'')))
       None \<lparr>rootUri = ''/repo'', state = None\<rparr> ''src/a.ts'' ''M'') \<le> 3037"
proof -
  let ?repo = "\<lparr>rootUri = ''/repo'', state = None\<rparr>"
  let ?short = "\<lambda>args :: string list. (Inr ''-old line\<newline>+new line'' :: thrown + string)"
  let ?long = "\<lambda>args :: string list. (Inr (replicate 3000 CHR ''x'') :: thrown + string)"
  have m: "''M'' \<noteq> ''A''" by simp
  have ds: "''-old line\<newline>+new line''
              = (if ''-old line\<newline>+new line'' = [] then ''M'' @ '': '' @ ''src/a.ts''
                 else ''-old line\<newline>+new line'')"
    by simp
  have dl: "replicate 3000 CHR ''x''
              = (if replicate 3000 CHR ''x'' = [] then ''M'' @ '': '' @ ''src/a.ts''
                 else replicate 3000 CHR ''x'')"
    by simp
  have "length ''-old line\<newline>+new line'' \<le> 2000" by simp
  with getFileDiff_truncation [where simpleGitInstances = "\<lambda>root. Some ?short"
        and repository = ?repo and git = ?short and relativePath = "''src/a.ts''"
        and gitDiff = "''-old line\<newline>+new line''" and document = None, OF m refl refl ds]
  have s: "getFileDiff (\<lambda>root. Some ?short) None ?repo ''src/a.ts'' ''M''
             = ''-old line\<newline>+new line''"
    by blast
  have "length (replicate 3000 CHR ''x'') > 2000" by simp
  with getFileDiff_truncation [where simpleGitInstances = "\<lambda>root. Some ?long"
        and repository = ?repo and git = ?long and relativePath = "''src/a.ts''"
        and gitDiff = "replicate 3000 CHR ''x''" and document = None, OF m refl refl dl]
  have "length (getFileDiff (\<lambda>root. Some ?long) None ?repo ''src/a.ts'' ''M'')
          \<le> length (replicate 3000 CHR ''x'') + 37"
    by blast
  then have l: "length (getFileDiff (\<lambda>root. Some ?long) None ?repo ''src/a.ts'' ''M'') \<le> 3037"
    by simp
  from m s l show ?thesis by blast
qed

section \<open>Validation Checker: the order of the checks\<close>

lemma filter_changed_empty:
  "(filter (\<lambda>selected. list_ex (\<lambda>changed. changed = selected) changedFiles) selectedFiles = [])
     \<longleftrightarrow> set selectedFiles \<inter> set changedFiles = {}"
  by (auto simp: filter_empty_conv list_ex_iff)

text \<open>
  Claim C7, as stated, at an absent repository (and at one without root) with an empty
  selection: the first check fails and returns at once, so the failing third check
  (no files selected) appends nothing.
\<close>

theorem validateCommitSetup_short_circuit_counterexample:
  "issues (validateCommitSetup None [] []) = [''No repository provided''] \<and>
   ''No files selected for commit'' \<notin> set (issues (validateCommitSetup None [] [])) \<and>
   ''No files selected for commit'' \<notin> set (issues (validateCommitSetup
      (Some \<lparr>shape_rootUri = None, add_is_function = False, commit_is_function = False,
              shape_state = None\<rparr>) [] []))"
  by (simp add: validateCommitSetup_def push_def)

text \<open>
  Claim C7, amended. The check of the repository handle ends the validation when it
  fails: an absent repository, or one without root, gives \<open>isValid = False\<close> with that
  single issue. With the handle present, the four remaining checks (\<^verbatim>\<open>add\<close> and
  \<^verbatim>\<open>commit\<close> available, selection not empty, selection meeting the changed files,
  state available) all run in this order and each failing one appends its issue. In
  every case \<open>isValid\<close> holds exactly when the list of issues is empty.
\<close>

theorem validateCommitSetup_checks:
  "validateCommitSetup None selectedFiles changedFiles
     = \<lparr>isValid = False, issues = [''No repository provided'']\<rparr> \<and>
   (shape_rootUri repo = None \<longrightarrow>
      validateCommitSetup (Some repo) selectedFiles changedFiles
        = \<lparr>isValid = False, issues = [''Repository has no root URI'']\<rparr>) \<and>
   (shape_rootUri repo \<noteq> None \<longrightarrow>
      issues (validateCommitSetup (Some repo) selectedFiles changedFiles)
        = (if add_is_function repo then [] else [''Repository.add method not available''])
          @ (if commit_is_function repo then [] else [''Repository.commit method not available''])
          @ (if selectedFiles = [] then [''No files selected for commit''] else [])
          @ (if set selectedFiles \<inter> set changedFiles = {}
             then [''Selected files have no changes''] else [])
          @ (if shape_state repo = None then [''Repository state is not available''] else [])) \<and>
   (isValid (validateCommitSetup repository selectedFiles changedFiles)
      \<longleftrightarrow> issues (validateCommitSetup repository selectedFiles changedFiles) = [])"
proof (intro conjI impI)
  show "validateCommitSetup None selectedFiles changedFiles
     = \<lparr>isValid = False, issues = [''No repository provided'']\<rparr>"
    by (simp add: validateCommitSetup_def push_def)
next
  assume "shape_rootUri repo = None"
  then show "validateCommitSetup (Some repo) selectedFiles changedFiles
        = \<lparr>isValid = False, issues = [''Repository has no root URI'']\<rparr>"
    by (simp add: validateCommitSetup_def push_def)
next
  assume "shape_rootUri repo \<noteq> None"
  then obtain root where "shape_rootUri repo = Some root" by blast
  then show "issues (validateCommitSetup (Some repo) selectedFiles changedFiles)
        = (if add_is_function repo then [] else [''Repository.add method not available''])
          @ (if commit_is_function repo then [] else [''Repository.commit method not available''])
          @ (if selectedFiles = [] then [''No files selected for commit''] else [])
          @ (if set selectedFiles \<inter> set changedFiles = {}
             then [''Selected files have no changes''] else [])
          @ (if shape_state repo = None then [''Repository state is not available''] else [])"
    by (simp add: validateCommitSetup_def push_def Let_def filter_changed_empty)
next
  show "isValid (validateCommitSetup repository selectedFiles changedFiles)
      \<longleftrightarrow> issues (validateCommitSetup repository selectedFiles changedFiles) = []"
  proof (cases repository)
    case None
    then show ?thesis by (simp add: validateCommitSetup_def push_def)
  next
    case (Some r)
    show ?thesis
    proof (cases "shape_rootUri r")
      case None
      with Some show ?thesis by (simp add: validateCommitSetup_def push_def)
    next
      case (Some root)
      with \<open>repository = Some r\<close> show ?thesis
        by (simp add: validateCommitSetup_def Let_def)
    qed
  qed
qed


theorem validateCommitSetup_checks_witness:
  "shape_rootUri \<lparr>shape_rootUri = Some ''/repo'', add_is_function = False,
       commit_is_function = True, shape_state = None\<rparr> \<noteq> None \<and>
   issues (validateCommitSetup
      (Some \<lparr>shape_rootUri = Some ''/repo'', add_is_function = False,
              commit_is_function = True, shape_state = None\<rparr>)
      [''/repo/a.txt''] [''/repo/b.txt''])
     = [''Repository.add method not available'', ''Selected files have no changes'',
        ''Repository state is not available''] \<and>
   shape_rootUri \<lparr>shape_rootUri = None, add_is_function = True,
       commit_is_function = True, shape_state = None\<rparr> = None \<and>
   validateCommitSetup
      (Some \<lparr>shape_rootUri = None, add_is_function = True,
              commit_is_function = True, shape_state = None\<rparr>)
      [''/repo/a.txt''] [''/repo/b.txt'']
     = \<lparr>isValid = False, issues = [''Repository has no root URI'']\<rparr>"
  using validateCommitSetup_checks [of "[''/repo/a.txt'']" "[''/repo/b.txt'']"
      "\<lparr>shape_rootUri = Some ''/repo'', add_is_function = False,
        commit_is_function = True, shape_state = None\<rparr>" None]
    validateCommitSetup_checks [of "[''/repo/a.txt'']" "[''/repo/b.txt'']"
      "\<lparr>shape_rootUri = None, add_is_function = True,
        commit_is_function = True, shape_state = None\<rparr>" None]
  by simp

section \<open>Commit Orchestrator: facts about staging and committing\<close>

lemma trim_empty_iff: "trim m = [] \<longleftrightarrow> (\<forall>c\<in>set m. isWhiteSpace c)"
proof
  assume "trim m = []"
  then have "dropWhile isWhiteSpace (rev (dropWhile isWhiteSpace m)) = []"
    by (simp add: trim_def)
  then have all: "\<forall>c\<in>set (dropWhile isWhiteSpace m). isWhiteSpace c"
    by simp
  have "dropWhile isWhiteSpace m = []"
  proof (rule ccontr)
    assume ne: "dropWhile isWhiteSpace m \<noteq> []"
    then have "\<not> isWhiteSpace (hd (dropWhile isWhiteSpace m))"
      by (rule hd_dropWhile)
    moreover from ne have "hd (dropWhile isWhiteSpace m) \<in> set (dropWhile isWhiteSpace m)"
      by (rule hd_in_set)
    ultimately show False using all by blast
  qed
  then show "\<forall>c\<in>set m. isWhiteSpace c"
    by simp
next
  assume "\<forall>c\<in>set m. isWhiteSpace c"
  then have d: "dropWhile isWhiteSpace m = []"
    by simp
  show "trim m = []"
    unfolding trim_def d by simp
qed

lemma addEach_shape:
  "\<exists>k\<le>length us.
      snd (addEach cl us w) = w\<lparr>events := events w @ map RepositoryAdd (take k us)\<rparr> \<and>
      (fst (addEach cl us w) = Inr () \<longrightarrow> k = length us) \<and>
      ((\<exists>error. fst (addEach cl us w) = Inl error) \<longrightarrow> 0 < k)"
proof (induction us arbitrary: w)
  case Nil
  then show ?case by simp
next
  case (Cons u us)
  show ?case
  proof (cases "repository_add cl (events w) u")
    case (Some error)
    then have "addEach cl (u # us) w = (Inl error, w\<lparr>events := events w @ [RepositoryAdd u]\<rparr>)"
      by (simp add: settle_def log_event_def)
    then show ?thesis
      by (intro exI [of _ "Suc 0"]) simp
  next
    case None
    let ?w1 = "w\<lparr>events := events w @ [RepositoryAdd u]\<rparr>"
    from None have step: "addEach cl (u # us) w = addEach cl us ?w1"
      by (simp add: settle_def log_event_def)
    from Cons.IH [of ?w1] obtain k where k: "k \<le> length us"
      "snd (addEach cl us ?w1) = ?w1\<lparr>events := events ?w1 @ map RepositoryAdd (take k us)\<rparr>"
      "fst (addEach cl us ?w1) = Inr () \<longrightarrow> k = length us"
      by blast
    show ?thesis
      using k step by (intro exI [of _ "Suc k"]) simp
  qed
qed

lemma addEach_storage: "storage (snd (addEach cl us w)) = storage w"
  using addEach_shape [of us cl w] by auto

lemma stageWithSimpleGit_storage: "storage (snd (stageWithSimpleGit cl repository files w)) = storage w"
  by (simp add: stageWithSimpleGit_def settle_def log_event_def Let_def split: option.splits)

lemma stageSelectedFiles_storage: "storage (snd (stageSelectedFiles cl repository w)) = storage w"
proof -
  have a: "\<And>us. storage (snd (case addEach cl us w of
                 (Inl error, w') \<Rightarrow> stageWithSimpleGit cl repository us w'
               | (Inr ok, w') \<Rightarrow> (Inr ok, w'))) = storage w"
  proof -
    fix us
    obtain r w' where rw: "addEach cl us w = (r, w')" by (cases "addEach cl us w")
    with addEach_storage [of cl us w] have "storage w' = storage w" by simp
    with rw show "storage (snd (case addEach cl us w of
                 (Inl error, w') \<Rightarrow> stageWithSimpleGit cl repository us w'
               | (Inr ok, w') \<Rightarrow> (Inr ok, w'))) = storage w"
      by (cases r) (simp_all add: stageWithSimpleGit_storage)
  qed
  show ?thesis
    unfolding stageSelectedFiles_def Let_def
    by (simp add: a split: sum.splits)
qed

lemma stageUnlessAmend_storage:
  "stageUnlessAmend cl repository amend w = (r, w1) \<Longrightarrow> storage w1 = storage w"
  using stageSelectedFiles_storage [of cl repository w]
  by (auto simp: stageUnlessAmend_def split: if_splits)

lemma commitWithFallback_storage:
  "commitWithFallback cl repository message amend w = (r, w2) \<Longrightarrow> storage w2 = storage w"
  by (auto simp: commitWithFallback_def commitWithSimpleGit_def settle_def log_event_def
           split: option.splits if_splits)

lemma commitWithFallback_success:
  "(\<exists>w2. commitWithFallback cl repository message amend w = (Inr (), w2)) \<longleftrightarrow>
     (repository_commit cl (events w) message amend = None \<or>
      simpleGitInstance_present cl (rootUri repository) \<and>
      simpleGit_commit cl (events w @ [RepositoryCommit message amend]) message amend = None)"
  by (auto simp: commitWithFallback_def commitWithSimpleGit_def settle_def log_event_def
           split: option.splits if_splits)


lemma commitAttempt_success:
  "commitAttempt cl repository message amend w = (Inr ok, w') \<Longrightarrow>
     \<exists>w1 w2. state repository \<noteq> None \<and>
       stageUnlessAmend cl repository amend w = (Inr (), w1) \<and>
       commitWithFallback cl repository message amend w1 = (Inr (), w2) \<and>
       w' = w2\<lparr>storage := clearSelection (storage w2) (rootUri repository),
              events := events w2 @ [ShowInformationMessage ''Commit successful!'',
                                     FireGitStateChange]\<rparr>"
  by (auto simp: commitAttempt_def log_event_def Let_def
           split: option.splits prod.splits sum.splits)

lemma commitAttempt_failure:
  "commitAttempt cl repository message amend w = (Inl error, w') \<Longrightarrow> storage w' = storage w"
proof -
  assume a: "commitAttempt cl repository message amend w = (Inl error, w')"
  show ?thesis
  proof (cases "state repository")
    case None
    with a show ?thesis by (simp add: commitAttempt_def)
  next
    case (Some st)
    obtain r1 w1 where s: "stageUnlessAmend cl repository amend w = (r1, w1)"
      by (cases "stageUnlessAmend cl repository amend w")
    then have s1: "storage w1 = storage w" by (rule stageUnlessAmend_storage)
    show ?thesis
    proof (cases r1)
      case (Inl e1)
      with a Some s s1 show ?thesis by (simp add: commitAttempt_def)
    next
      case (Inr u1)
      obtain r2 w2 where c: "commitWithFallback cl repository message amend w1 = (r2, w2)"
        by (cases "commitWithFallback cl repository message amend w1")
      then have "storage w2 = storage w1" by (rule commitWithFallback_storage)
      with a Some s s1 Inr c show ?thesis
        by (cases r2) (simp_all add: commitAttempt_def Let_def)
    qed
  qed
qed

lemma commitAttempt_success_iff:
  "(\<exists>w'. commitAttempt cl repository message amend w = (Inr (), w')) \<longleftrightarrow>
     state repository \<noteq> None \<and>
     (\<exists>w1. stageUnlessAmend cl repository amend w = (Inr (), w1) \<and>
           (\<exists>w2. commitWithFallback cl repository message amend w1 = (Inr (), w2)))"
  by (auto simp: commitAttempt_def log_event_def Let_def
           split: option.splits prod.splits sum.splits)






lemma run_success:
  "commit reliable_clients scenario_repository ''docs: update notes'' False selected_world
     = (Inr (), \<lparr>storage = [selectionKey ''/repo'' \<mapsto> []],
                 events = [RepositoryAdd ''/repo/b.txt'',
                           RepositoryCommit ''docs: update notes'' False,
                           ShowInformationMessage ''Commit successful!'',
                           FireGitStateChange]\<rparr>)"
  by (simp add: commit_def commitAttempt_def stageUnlessAmend_def stageSelectedFiles_def
        commitWithFallback_def settle_def log_event_def reliable_clients_def
        scenario_repository_def selected_world_def getSelectedFiles_def ws_get_def
        clearSelection_def ws_update_def trim_def isWhiteSpace_def Let_def)

lemma run_failure:
  "commit failing_clients scenario_repository ''docs: update notes'' False selected_world
     = (Inl (Error ''Commit failed: Failed to stage files: fatal: unable to write index''),
        \<lparr>storage = [selectionKey ''/repo'' \<mapsto> [''/repo/b.txt'']],
         events = [RepositoryAdd ''/repo/b.txt'', SimpleGitAdd [''b.txt''],
                   ShowErrorMessage
                     ''Commit failed: Failed to stage files: fatal: unable to write index'']\<rparr>)"
  by (simp add: commit_def commitAttempt_def stageUnlessAmend_def stageSelectedFiles_def
        stageWithSimpleGit_def
        commitWithFallback_def settle_def log_event_def failing_clients_def
        scenario_repository_def selected_world_def getSelectedFiles_def ws_get_def
        clearSelection_def ws_update_def trim_def isWhiteSpace_def Let_def)

section \<open>Commit Orchestrator: a blank message is rejected before anything happens\<close>

text \<open>
  Claim C6. For every repository, every amend flag and every message made of white
  space only (the empty message among them), \<^verbatim>\<open>commit\<close> rejects with the error
  \<open>Commit message cannot be empty\<close> and leaves the store and the log of events as they
  were: no staging call, no commit call and no notification happen. This holds for both
  variants of the service.
\<close>

theorem blank_message_rejected:
  "\<forall>c\<in>set message. isWhiteSpace c \<Longrightarrow>
     commit cl repository message amend w
       = (Inl (Error ''Commit message cannot be empty''), w) \<and>
     commit_plain cl repository message amend w
       = (Inl (Error ''Commit message cannot be empty''), w)"
proof -
  assume "\<forall>c\<in>set message. isWhiteSpace c"
  then have blank: "trim message = []"
    by (simp add: trim_empty_iff)
  from blank have "commit cl repository message amend w
       = (Inl (Error ''Commit message cannot be empty''), w)"
    by (simp add: commit_def)
  moreover from blank have "commit_plain cl repository message amend w
       = (Inl (Error ''Commit message cannot be empty''), w)"
    by (simp add: commit_plain_def)
  ultimately show ?thesis by blast
qed

theorem blank_message_rejected_witness:
  "commit reliable_clients scenario_repository [] False selected_world
     = (Inl (Error ''Commit message cannot be empty''), selected_world) \<and>
   commit reliable_clients scenario_repository '' \<newline>  '' True selected_world
     = (Inl (Error ''Commit message cannot be empty''), selected_world) \<and>
   commit_plain reliable_clients scenario_repository '' \<newline>  '' False selected_world
     = (Inl (Error ''Commit message cannot be empty''), selected_world)"
proof -
  have e: "\<forall>c\<in>set ([] :: string). isWhiteSpace c" by simp
  have b: "\<forall>c\<in>set '' \<newline>  ''. isWhiteSpace c" by (simp add: isWhiteSpace_def)
  from blank_message_rejected [OF e, where cl = reliable_clients
         and repository = scenario_repository and amend = False and w = selected_world]
    blank_message_rejected [OF b, where cl = reliable_clients
         and repository = scenario_repository and amend = True and w = selected_world]
    blank_message_rejected [OF b, where cl = reliable_clients
         and repository = scenario_repository and amend = False and w = selected_world]
  show ?thesis by blast
qed

section \<open>Commit Orchestrator: success clears the selection, failure keeps it\<close>

text \<open>
  Claim C5. For every commit attempt of the variant with fallback: when \<^verbatim>\<open>commit\<close>
  resolves, the store is the old store with the selection of the repository cleared, the
  selection read back is empty, and the log ends with the success message followed by
  the state-change notification; when it rejects, it rejects with an \<^verbatim>\<open>Error\<close> and the
  store is unchanged. It resolves exactly when the message is not blank, the repository
  has state, staging (skipped when amending) succeeded, and the host's commit or, after
  its failure, the simple-git commit succeeded.
\<close>

theorem commit_success_clears_failure_keeps:
  "(case commit cl repository message amend w of
      (Inr ok, w') \<Rightarrow>
        storage w' = clearSelection (storage w) (rootUri repository) \<and>
        getSelectedFiles (storage w') (rootUri repository) = [] \<and>
        (\<exists>log. events w' = log @ [ShowInformationMessage ''Commit successful!'',
                                   FireGitStateChange])
    | (Inl error, w') \<Rightarrow>
        storage w' = storage w \<and> (\<exists>text. error = Error text)) \<and>
   ((\<exists>w'. commit cl repository message amend w = (Inr (), w')) \<longleftrightarrow>
      trim message \<noteq> [] \<and> state repository \<noteq> None \<and>
      (\<exists>w1. stageUnlessAmend cl repository amend w = (Inr (), w1) \<and>
            (repository_commit cl (events w1) message amend = None \<or>
             simpleGitInstance_present cl (rootUri repository) \<and>
             simpleGit_commit cl (events w1 @ [RepositoryCommit message amend]) message amend
               = None)))"
proof (intro conjI)
  obtain r w' where rw: "commit cl repository message amend w = (r, w')"
    by (cases "commit cl repository message amend w")
  show "case commit cl repository message amend w of
      (Inr ok, w') \<Rightarrow>
        storage w' = clearSelection (storage w) (rootUri repository) \<and>
        getSelectedFiles (storage w') (rootUri repository) = [] \<and>
        (\<exists>log. events w' = log @ [ShowInformationMessage ''Commit successful!'',
                                   FireGitStateChange])
    | (Inl error, w') \<Rightarrow>
        storage w' = storage w \<and> (\<exists>text. error = Error text)"
  proof (cases r)
    case (Inr u)
    with rw have "commitAttempt cl repository message amend w = (Inr u, w')"
      by (auto simp: commit_def Let_def split: if_splits prod.splits sum.splits)
    from commitAttempt_success [OF this] obtain w1 w2 where
      s: "stageUnlessAmend cl repository amend w = (Inr (), w1)" and
      c: "commitWithFallback cl repository message amend w1 = (Inr (), w2)" and
      w': "w' = w2\<lparr>storage := clearSelection (storage w2) (rootUri repository),
              events := events w2 @ [ShowInformationMessage ''Commit successful!'',
                                     FireGitStateChange]\<rparr>"
      by blast
    from s c have "storage w2 = storage w"
      using stageUnlessAmend_storage commitWithFallback_storage by metis
    with w' rw Inr show ?thesis
      by (simp add: clearSelection_selected)
  next
    case (Inl error)
    show ?thesis
    proof (cases "trim message = []")
      case True
      with rw Inl show ?thesis by (auto simp: commit_def)
    next
      case False
      with rw Inl obtain e0 w0 where
        a: "commitAttempt cl repository message amend w = (Inl e0, w0)" and
        e: "error = Error (''Commit failed: '' @ errorMessage e0)" and
        w0: "w' = log_event w0 (ShowErrorMessage (''Commit failed: '' @ errorMessage e0))"
        by (auto simp: commit_def Let_def split: prod.splits sum.splits)
      from commitAttempt_failure [OF a] w0 have "storage w' = storage w"
        by (simp add: log_event_def)
      with rw Inl e show ?thesis by simp
    qed
  qed
next
  have "(\<exists>w'. commit cl repository message amend w = (Inr (), w')) \<longleftrightarrow>
          trim message \<noteq> [] \<and> (\<exists>w'. commitAttempt cl repository message amend w = (Inr (), w'))"
    by (auto simp: commit_def Let_def split: prod.splits sum.splits)
  then show "(\<exists>w'. commit cl repository message amend w = (Inr (), w')) \<longleftrightarrow>
      trim message \<noteq> [] \<and> state repository \<noteq> None \<and>
      (\<exists>w1. stageUnlessAmend cl repository amend w = (Inr (), w1) \<and>
            (repository_commit cl (events w1) message amend = None \<or>
             simpleGitInstance_present cl (rootUri repository) \<and>
             simpleGit_commit cl (events w1 @ [RepositoryCommit message amend]) message amend
               = None))"
    by (simp add: commitAttempt_success_iff commitWithFallback_success)
qed


theorem commit_success_clears_failure_keeps_witness:
  "fst (commit reliable_clients scenario_repository ''docs: update notes'' False selected_world)
     = Inr () \<and>
   getSelectedFiles (storage selected_world) ''/repo'' = [''/repo/b.txt''] \<and>
   getSelectedFiles
     (storage (snd (commit reliable_clients scenario_repository ''docs: update notes'' False
                      selected_world))) ''/repo'' = [] \<and>
   last (events (snd (commit reliable_clients scenario_repository ''docs: update notes'' False
                        selected_world))) = FireGitStateChange \<and>
   fst (commit failing_clients scenario_repository ''docs: update notes'' False selected_world)
     = Inl (Error ''Commit failed: Failed to stage files: fatal: unable to write index'') \<and>
   getSelectedFiles
     (storage (snd (commit failing_clients scenario_repository ''docs: update notes'' False
                      selected_world))) ''/repo'' = [''/repo/b.txt'']"
proof -
  have r: "rootUri scenario_repository = ''/repo''"
    by (simp add: scenario_repository_def)
  have s: "getSelectedFiles (storage selected_world) ''/repo'' = [''/repo/b.txt'']"
    by (simp add: selected_world_def getSelectedFiles_def ws_get_def)
  from commit_success_clears_failure_keeps
         [where cl = reliable_clients and repository = scenario_repository
            and message = "''docs: update notes''" and amend = False and w = selected_world]
       commit_success_clears_failure_keeps
         [where cl = failing_clients and repository = scenario_repository
            and message = "''docs: update notes''" and amend = False and w = selected_world]
       r s
  show ?thesis
    by (simp add: run_success run_failure clearSelection_selected)
qed

section \<open>Commit Orchestrator: an empty selection\<close>




end
